theory Spec2Isabelle
  imports Main
begin

section \<open>Data model\<close>

text \<open>
  A tweet is a JSON-formatted payload: a tree of dicts, lists and scalars. A Python dict
  keeps its keys in insertion order, so a dict is an association list; its keys are
  unique, and a lookup reads the entry of the key.
\<close>

datatype json =
    JNull
  | JBool bool
  | JNum int
  | JStr string
  | JList "json list"
  | JObj "(string \<times> json) list"

text \<open>
  The exceptions the code can raise. \<open>KeyError\<close> carries the missing key, as Python's
  does; \<open>NotImplementedError\<close> carries its message; \<open>AttributeError\<close> carries the type
  of the object and the attribute it lacks;
  \<open>RequestException\<close> stands for what the HTTP client raises when no response arrives.
\<close>

datatype error =
    KeyError json
  | IndexError
  | TypeError
  | AttributeError string string
  | NotImplementedError string
  | RequestException string

type_synonym 'v dict = "(string \<times> 'v) list"

text \<open>\<open>d[k] = v\<close>: an existing key keeps its position, a new key goes to the end.\<close>

fun dict_set :: "'v dict \<Rightarrow> string \<Rightarrow> 'v \<Rightarrow> 'v dict" where
  "dict_set [] k v = [(k, v)]"
| "dict_set ((k', v') # d) k v =
     (if k' = k then (k', v) # d else (k', v') # dict_set d k v)"

text \<open>\<open>data[key]\<close> for a string key: only a dict can be indexed by a string.\<close>

fun getitem :: "json \<Rightarrow> string \<Rightarrow> error + json" where
  "getitem (JObj m) key =
     (case map_of m key of Some v \<Rightarrow> Inr v | None \<Rightarrow> Inl (KeyError (JStr key)))"
| "getitem _ key = Inl TypeError"

section \<open>MeasurementBase\<close>

type_synonym comparator = "json \<Rightarrow> json \<Rightarrow> error + bool"

type_synonym filter = "string list \<times> comparator \<times> json"

text \<open>
  The attributes of a measurement object: its class (for \<open>get_name\<close>) and the optional
  member \<open>filters\<close> (\<open>None\<close> when \<open>hasattr(self, "filters")\<close> is false).
\<close>

record MeasurementBase =
  class_name :: string
  filters :: "filter list option"

definition get_name :: "'a MeasurementBase_scheme \<Rightarrow> string" where
  "get_name self = class_name self"

text \<open>
  The loop \<open>for o in obj: results.append(get_element(o, new_key_path))\<close>: the first
  element that raises ends the loop with its exception.
\<close>

fun collect :: "(error + 'a) list \<Rightarrow> error + 'a list" where
  "collect [] = Inr []"
| "collect (r # rs) =
     (case r of
        Inl e \<Rightarrow> Inl e
      | Inr v \<Rightarrow> (case collect rs of Inl e \<Rightarrow> Inl e | Inr vs \<Rightarrow> Inr (v # vs)))"

text \<open>
  \<open>get_element(data, key_path)\<close>, the recursive helper of \<open>add_tweet\<close>. An empty key path
  fails at \<open>key_path[0]\<close>.
\<close>

fun get_element :: "json \<Rightarrow> string list \<Rightarrow> error + json" where
  "get_element data [] = Inl IndexError"
| "get_element data [key] = getitem data key"
| "get_element data (key # k # ks) =
     (case getitem data key of
        Inl e \<Rightarrow> Inl e
      | Inr obj \<Rightarrow>
          (case obj of
             JList os \<Rightarrow>
               (case collect (map (\<lambda>el. get_element el (k # ks)) os) of
                  Inl e \<Rightarrow> Inl e
                | Inr results \<Rightarrow> Inr (JList results))
           | _ \<Rightarrow> get_element obj (k # ks)))"

text \<open>
  How a call of \<open>add_tweet\<close> ends: an exception, the early \<open>return\<close> of a failed filter,
  or the return after \<open>update\<close>.
\<close>

datatype outcome = Raised error | Rejected | Updated

text \<open>
  The filter loop of \<open>add_tweet\<close>: \<open>None\<close> when every filter passed, otherwise how the
  call ends at the first filter that raises or whose comparator is false.
\<close>

fun run_filters :: "filter list \<Rightarrow> json \<Rightarrow> outcome option" where
  "run_filters [] tweet = None"
| "run_filters ((key_path, comparator, v) # fs) tweet =
     (case get_element tweet key_path of
        Inl e \<Rightarrow> Some (Raised e)
      | Inr data \<Rightarrow>
          (case comparator data v of
             Inl e \<Rightarrow> Some (Raised e)
           | Inr b \<Rightarrow> if \<not> b then Some Rejected else run_filters fs tweet))"

text \<open>
  \<open>add_tweet(self, tweet)\<close>, with the \<open>update\<close> of the derived class as a parameter. An
  \<open>update\<close> returns the object as it leaves it and the exception it raised, if any.
\<close>

definition add_tweet ::
  "('a MeasurementBase_scheme \<Rightarrow> json \<Rightarrow> error option \<times> 'a MeasurementBase_scheme) \<Rightarrow>
   'a MeasurementBase_scheme \<Rightarrow> json \<Rightarrow> outcome \<times> 'a MeasurementBase_scheme" where
  "add_tweet update self tweet =
     (case (case filters self of None \<Rightarrow> None | Some fs \<Rightarrow> run_filters fs tweet) of
        Some out \<Rightarrow> (out, self)
      | None \<Rightarrow>
          (case update self tweet of
             (Some e, self') \<Rightarrow> (Raised e, self')
           | (None, self') \<Rightarrow> (Updated, self')))"

text \<open>\<open>MeasurementBase.combine\<close>: raises, and touches nothing.\<close>

definition MeasurementBase_combine ::
  "'a MeasurementBase_scheme \<Rightarrow> 'b \<Rightarrow> error option \<times> 'a MeasurementBase_scheme" where
  "MeasurementBase_combine self other =
     (Some (NotImplementedError
        ''Please implement a 'combine' method for your measurement class''), self)"

section \<open>Counter and Counters\<close>

record Counter = MeasurementBase +
  counter :: int

definition Counter_combine :: "'a Counter_scheme \<Rightarrow> 'b Counter_scheme \<Rightarrow> 'a Counter_scheme" where
  "Counter_combine self new_counter = self\<lparr>counter := counter self + counter new_counter\<rparr>"

text \<open>
  \<open>counters\<close> is created as a \<open>defaultdict(int)\<close>; \<open>counters_default\<close> records whether it
  still is one (the views replace it by a plain dict).
\<close>

record Counters = MeasurementBase +
  counters :: "int dict"
  counters_default :: bool

text \<open>The loop of \<open>Counters.combine\<close> over \<open>new_counters.counters.items()\<close>.\<close>

fun combine_items :: "int dict \<Rightarrow> int dict \<Rightarrow> int dict" where
  "combine_items cs [] = cs"
| "combine_items cs ((new_name, new_count) # rest) =
     combine_items
       (case map_of cs new_name of
          Some c \<Rightarrow> dict_set cs new_name (c + new_count)
        | None \<Rightarrow> dict_set cs new_name new_count)
       rest"

definition Counters_combine ::
  "'a Counters_scheme \<Rightarrow> 'b Counters_scheme \<Rightarrow> 'a Counters_scheme" where
  "Counters_combine self new_counters =
     self\<lparr>counters := combine_items (counters self) (counters new_counters)\<rparr>"

text \<open>The count of a name after a merge: the sum of the counts where both have it.\<close>

definition merged :: "int option \<Rightarrow> int option \<Rightarrow> int option" where
  "merged x y =
     (case x of
        None \<Rightarrow> y
      | Some a \<Rightarrow> (case y of None \<Rightarrow> Some a | Some b \<Rightarrow> Some (a + b)))"

text \<open>
  \<open>Counters.get\<close>. \<open>sanitize_string\<close> comes from \<open>gnip_analysis_tools.nlp.utils\<close> and is
  a parameter here.
\<close>

definition Counters_get :: "(string \<Rightarrow> string) \<Rightarrow> 'a Counters_scheme \<Rightarrow> (int \<times> string) list" where
  "Counters_get sanitize_string self =
     map (\<lambda>(name, count). (count, sanitize_string name)) (counters self)"

section \<open>Tokens\<close>

text \<open>\<open>key in x\<close> for a string key, and \<open>for v in x\<close>, on the values JSON can hold.\<close>

fun contains_str :: "string \<Rightarrow> string \<Rightarrow> bool" where
  "contains_str [] sub = (sub = [])"
| "contains_str (c # s) sub = (take (length sub) (c # s) = sub \<or> contains_str s sub)"

fun contains :: "json \<Rightarrow> string \<Rightarrow> error + bool" where
  "contains (JObj m) key = Inr (key \<in> set (map fst m))"
| "contains (JList xs) key = Inr (JStr key \<in> set xs)"
| "contains (JStr s) key = Inr (contains_str s key)"
| "contains _ key = Inl TypeError"

fun iter :: "json \<Rightarrow> error + json list" where
  "iter (JList xs) = Inr xs"
| "iter (JObj m) = Inr (map (\<lambda>(k, v). JStr k) m)"
| "iter (JStr s) = Inr (map (\<lambda>c. JStr [c]) s)"
| "iter _ = Inl TypeError"

text \<open>
  \<open>[token for sentence in sentences for token in sentence]\<close>, the sentences already
  listed: a sentence that cannot be iterated ends the comprehension.
\<close>

fun flatten_sentences :: "json list \<Rightarrow> error + json list" where
  "flatten_sentences [] = Inr []"
| "flatten_sentences (sentence # rest) =
     (case iter sentence of
        Inl e \<Rightarrow> Inl e
      | Inr tokens \<Rightarrow>
          (case flatten_sentences rest of
             Inl e \<Rightarrow> Inl e
           | Inr others \<Rightarrow> Inr (tokens @ others)))"

text \<open>
  \<open>TokenizedBody.get_tokens\<close> and \<open>TokenizedBio.get_tokens\<close> differ in the names of the two
  enrichments only. \<open>token_ok\<close> comes from \<open>gnip_analysis_tools.nlp.utils\<close> and is a
  parameter.
\<close>

definition get_tokens_of ::
  "string \<Rightarrow> string \<Rightarrow> (json \<Rightarrow> bool) \<Rightarrow> json \<Rightarrow> error + json list" where
  "get_tokens_of nlp nltk token_ok tweet =
     (case getitem tweet ''enrichments'' of
        Inl e \<Rightarrow> Inl e
      | Inr enrichments \<Rightarrow>
          (case contains enrichments nlp of
             Inl e \<Rightarrow> Inl e
           | Inr True \<Rightarrow>
               (case getitem enrichments nlp of
                  Inl e \<Rightarrow> Inl e
                | Inr enrichment \<Rightarrow>
                    (case getitem enrichment ''sentences'' of
                       Inl e \<Rightarrow> Inl e
                     | Inr sentences \<Rightarrow>
                         (case iter sentences of
                            Inl e \<Rightarrow> Inl e
                          | Inr ss \<Rightarrow>
                              (case flatten_sentences ss of
                                 Inl e \<Rightarrow> Inl e
                               | Inr tokens \<Rightarrow> Inr (filter token_ok tokens)))))
           | Inr False \<Rightarrow>
               (case contains enrichments nltk of
                  Inl e \<Rightarrow> Inl e
                | Inr True \<Rightarrow>
                    (case getitem enrichments nltk of
                       Inl e \<Rightarrow> Inl e
                     | Inr tokens \<Rightarrow>
                         (case iter tokens of
                            Inl e \<Rightarrow> Inl e
                          | Inr ts \<Rightarrow> Inr (filter token_ok ts)))
                | Inr False \<Rightarrow> Inl (KeyError (JStr ''No NLP enrichment found!'')))))"

definition TokenizedBody_get_tokens :: "(json \<Rightarrow> bool) \<Rightarrow> json \<Rightarrow> error + json list" where
  "TokenizedBody_get_tokens = get_tokens_of ''BodyNLPEnrichment'' ''NLTKSpaceTokenizeBody''"

definition TokenizedBio_get_tokens :: "(json \<Rightarrow> bool) \<Rightarrow> json \<Rightarrow> error + json list" where
  "TokenizedBio_get_tokens = get_tokens_of ''BioNLPEnrichment'' ''NLTKSpaceTokenizeBio''"

section \<open>Specified term counters\<close>

record SpecifiedTermCounters = Counters +
  term_list :: "string list"

text \<open>
  \<open>self.counters[term] += 1\<close>: a \<open>defaultdict(int)\<close> creates the missing entry from 0, a
  plain dict raises \<open>KeyError\<close>.
\<close>

definition increment :: "bool \<Rightarrow> int dict \<Rightarrow> string \<Rightarrow> error + int dict" where
  "increment is_default cs term =
     (case map_of cs term of
        Some c \<Rightarrow> Inr (dict_set cs term (c + 1))
      | None \<Rightarrow> if is_default then Inr (dict_set cs term (0 + 1)) else Inl (KeyError (JStr term)))"

text \<open>The inner loop \<open>for term in self.term_list\<close>, for one token.\<close>

fun count_terms ::
  "(json \<Rightarrow> string \<Rightarrow> bool) \<Rightarrow> bool \<Rightarrow> json \<Rightarrow> string list \<Rightarrow> int dict \<Rightarrow> error option \<times> int dict" where
  "count_terms term_comparator is_default token [] cs = (None, cs)"
| "count_terms term_comparator is_default token (term # terms) cs =
     (if term_comparator token term
      then (case increment is_default cs term of
              Inl e \<Rightarrow> (Some e, cs)
            | Inr cs' \<Rightarrow> count_terms term_comparator is_default token terms cs')
      else count_terms term_comparator is_default token terms cs)"

text \<open>The outer loop \<open>for token in self.get_tokens(tweet)\<close>.\<close>

fun count_tokens ::
  "(json \<Rightarrow> string \<Rightarrow> bool) \<Rightarrow> bool \<Rightarrow> string list \<Rightarrow> json list \<Rightarrow> int dict \<Rightarrow> error option \<times> int dict" where
  "count_tokens term_comparator is_default terms [] cs = (None, cs)"
| "count_tokens term_comparator is_default terms (token # tokens) cs =
     (case count_terms term_comparator is_default token terms cs of
        (Some e, cs') \<Rightarrow> (Some e, cs')
      | (None, cs') \<Rightarrow> count_tokens term_comparator is_default terms tokens cs')"

text \<open>
  \<open>SpecifiedBodyTermCounters.update\<close> and \<open>SpecifiedBioTermCounters.update\<close>, with
  \<open>get_tokens\<close> of the token mixin and \<open>term_comparator\<close> of \<open>nlp.utils\<close> as parameters.
\<close>

definition SpecifiedTermCounters_update ::
  "(json \<Rightarrow> error + json list) \<Rightarrow> (json \<Rightarrow> string \<Rightarrow> bool) \<Rightarrow>
   'a SpecifiedTermCounters_scheme \<Rightarrow> json \<Rightarrow> error option \<times> 'a SpecifiedTermCounters_scheme" where
  "SpecifiedTermCounters_update get_tokens term_comparator self tweet =
     (case get_tokens tweet of
        Inl e \<Rightarrow> (Some e, self)
      | Inr tokens \<Rightarrow>
          (case count_tokens term_comparator (counters_default self) (term_list self) tokens
                  (counters self) of
             (err, cs') \<Rightarrow> (err, self\<lparr>counters := cs'\<rparr>)))"

definition SpecifiedBodyTermCounters_update ::
  "(json \<Rightarrow> bool) \<Rightarrow> (json \<Rightarrow> string \<Rightarrow> bool) \<Rightarrow>
   'a SpecifiedTermCounters_scheme \<Rightarrow> json \<Rightarrow> error option \<times> 'a SpecifiedTermCounters_scheme" where
  "SpecifiedBodyTermCounters_update token_ok =
     SpecifiedTermCounters_update (TokenizedBody_get_tokens token_ok)"

text \<open>The caller feeds the tweets one at a time; the object lives on after a call that raised.\<close>

definition add_tweets ::
  "('a MeasurementBase_scheme \<Rightarrow> json \<Rightarrow> error option \<times> 'a MeasurementBase_scheme) \<Rightarrow>
   'a MeasurementBase_scheme \<Rightarrow> json list \<Rightarrow> 'a MeasurementBase_scheme" where
  "add_tweets update self tweets = foldl (\<lambda>s tweet. snd (add_tweet update s tweet)) self tweets"

section \<open>Views\<close>

record GetCounters = Counters +
  top_k :: "int option"
  min_n :: "int option"

text \<open>
  \<open>GetBase.get_init\<close>: the dict comprehension builds a new plain dict; two names with the
  same sanitized form share one entry, which keeps the count of the later one.
\<close>

definition sanitized :: "(string \<Rightarrow> string) \<Rightarrow> int dict \<Rightarrow> int dict" where
  "sanitized sanitize_string cs =
     foldl (\<lambda>d (name, count). dict_set d (sanitize_string name) count) [] cs"

definition get_init :: "(string \<Rightarrow> string) \<Rightarrow> 'a Counters_scheme \<Rightarrow> 'a Counters_scheme" where
  "get_init sanitize_string self =
     self\<lparr>counters := sanitized sanitize_string (counters self), counters_default := False\<rparr>"

text \<open>\<open>xs[:k]\<close>: a negative \<open>k\<close> counts from the end.\<close>

definition slice_to :: "'a list \<Rightarrow> int \<Rightarrow> 'a list" where
  "slice_to xs k = (if k < 0 then take (nat (int (length xs) + k)) xs else take (nat k) xs)"

text \<open>
  \<open>list(reversed(sorted(items, key=operator.itemgetter(1))))\<close>: Python's \<open>sorted\<close> is stable
  and ascending, as \<open>sort_key\<close> is.
\<close>

definition sorted_top :: "int dict \<Rightarrow> int dict" where
  "sorted_top cs = rev (sort_key snd cs)"

definition GetTopCounts_get ::
  "(string \<Rightarrow> string) \<Rightarrow> 'a GetCounters_scheme \<Rightarrow> (int \<times> string) list \<times> 'a GetCounters_scheme" where
  "GetTopCounts_get sanitize_string self =
     (let self1 = get_init sanitize_string self;
          self2 = (case top_k self1 of None \<Rightarrow> self1\<lparr>top_k := Some 20\<rparr> | Some k \<Rightarrow> self1);
          k = (case top_k self2 of None \<Rightarrow> 20 | Some k \<Rightarrow> k)
      in (map (\<lambda>(name, count). (count, name)) (slice_to (sorted_top (counters self2)) k), self2))"

definition GetCutoffCounts_get ::
  "(string \<Rightarrow> string) \<Rightarrow> 'a GetCounters_scheme \<Rightarrow> (int \<times> string) list \<times> 'a GetCounters_scheme" where
  "GetCutoffCounts_get sanitize_string self =
     (let self1 = get_init sanitize_string self;
          self2 = (case min_n self1 of None \<Rightarrow> self1\<lparr>min_n := Some 3\<rparr> | Some n \<Rightarrow> self1);
          n = (case min_n self2 of None \<Rightarrow> 3 | Some n \<Rightarrow> n);
          self3 = self2\<lparr>counters := filter (\<lambda>(token, count). count \<ge> n) (counters self2)\<rparr>
      in (map (\<lambda>(name, count). (count, name)) (counters self3), self3))"

text \<open>
  \<open>GetCutoffTopCounts.get\<close>. \<open>super(GetCutoffTopCounts)\<close>, with the class alone, is an
  unbound super object: looking \<open>get\<close> up on it raises \<open>AttributeError\<close>, so the call ends
  there, after \<open>get_init\<close> and the default of \<open>top_k\<close>, and nothing below it runs.
\<close>

definition GetCutoffTopCounts_get ::
  "(string \<Rightarrow> string) \<Rightarrow> 'a GetCounters_scheme \<Rightarrow>
   (error + (int \<times> string) list) \<times> 'a GetCounters_scheme" where
  "GetCutoffTopCounts_get sanitize_string self =
     (let self1 = get_init sanitize_string self;
          self2 = (case top_k self1 of None \<Rightarrow> self1\<lparr>top_k := Some 20\<rparr> | Some k \<Rightarrow> self1)
      in (Inl (AttributeError ''super'' ''get''), self2))"

section \<open>Image label enrichment\<close>

text \<open>
  What \<open>enrichment_value\<close> reaches outside the program is a parameter: \<open>requests.get\<close>
  (which returns a response or raises), \<open>Image.open\<close>, the model behind
  \<open>_make_predictions\<close> with the decoding of its top predictions, and \<open>str\<close> on a
  probability.
\<close>

record 'bytes response =
  ok :: bool
  status_code :: int
  content :: 'bytes

record ('bytes, 'img, 'prob) image_env =
  requests_get :: "json \<Rightarrow> error + 'bytes response"
  Image_open :: "'bytes \<Rightarrow> error + 'img"
  make_predictions :: "'img \<Rightarrow> int \<Rightarrow> error + (string \<times> string \<times> 'prob) list"
  str_prob :: "'prob \<Rightarrow> string"

record ImageLabel =
  topk :: int

definition ImageLabel_init :: ImageLabel where
  "ImageLabel_init = \<lparr>topk = 5\<rparr>"

text \<open>The truth value of a JSON value in \<open>if img_url:\<close>; Python's \<open>None\<close> is \<open>JNull\<close>.\<close>

fun truthy :: "json \<Rightarrow> bool" where
  "truthy JNull = False"
| "truthy (JBool b) = b"
| "truthy (JNum n) = (n \<noteq> 0)"
| "truthy (JStr s) = (s \<noteq> [])"
| "truthy (JList xs) = (xs \<noteq> [])"
| "truthy (JObj m) = (m \<noteq> [])"

text \<open>\<open>x[0]\<close>: the keys of a JSON dict are strings, so 0 is never one of them.\<close>

fun getitem0 :: "json \<Rightarrow> error + json" where
  "getitem0 (JList []) = Inl IndexError"
| "getitem0 (JList (x # xs)) = Inr x"
| "getitem0 (JStr []) = Inl IndexError"
| "getitem0 (JStr (c # s)) = Inr (JStr [c])"
| "getitem0 (JObj m) = Inl (KeyError (JNum 0))"
| "getitem0 _ = Inl TypeError"

text \<open>
  \<open>logging.info('... id={}'.format(tweet['id']))\<close>: the message goes to the log, the lookup
  of \<open>tweet['id']\<close> can raise.
\<close>

definition log_tweet_id :: "json \<Rightarrow> error option" where
  "log_tweet_id tweet = (case getitem tweet ''id'' of Inl e \<Rightarrow> Some e | Inr v \<Rightarrow> None)"

text \<open>The expression \<open>tweet['twitter_entities']['media'][0]['media_url']\<close>.\<close>

definition media_url_of :: "json \<Rightarrow> error + json" where
  "media_url_of tweet =
     (case getitem tweet ''twitter_entities'' of
        Inl e \<Rightarrow> Inl e
      | Inr entities \<Rightarrow>
          (case getitem entities ''media'' of
             Inl e \<Rightarrow> Inl e
           | Inr media \<Rightarrow>
               (case getitem0 media of
                  Inl e \<Rightarrow> Inl e
                | Inr first \<Rightarrow> getitem first ''media_url'')))"

text \<open>The condition \<open>'twitter_entities' not in tweet or 'media' not in tweet['twitter_entities']\<close>.\<close>

definition no_media :: "json \<Rightarrow> error + bool" where
  "no_media tweet =
     (case contains tweet ''twitter_entities'' of
        Inl e \<Rightarrow> Inl e
      | Inr False \<Rightarrow> Inr True
      | Inr True \<Rightarrow>
          (case getitem tweet ''twitter_entities'' of
             Inl e \<Rightarrow> Inl e
           | Inr entities \<Rightarrow>
               (case contains entities ''media'' of
                  Inl e \<Rightarrow> Inl e
                | Inr b \<Rightarrow> Inr (\<not> b))))"

text \<open>\<open>_get_img_url\<close>: only a \<open>KeyError\<close> of the lookup is caught.\<close>

definition get_img_url :: "json \<Rightarrow> error + json" where
  "get_img_url tweet =
     (case no_media tweet of
        Inl e \<Rightarrow> Inl e
      | Inr True \<Rightarrow> (case log_tweet_id tweet of Some e \<Rightarrow> Inl e | None \<Rightarrow> Inr JNull)
      | Inr False \<Rightarrow>
          (case media_url_of tweet of
             Inl (KeyError key) \<Rightarrow>
               (case log_tweet_id tweet of Some e \<Rightarrow> Inl e | None \<Rightarrow> Inr JNull)
           | Inl e \<Rightarrow> Inl e
           | Inr media_url \<Rightarrow> Inr media_url))"

text \<open>\<open>_download_image\<close>: \<open>None\<close> for a response that is not ok.\<close>

definition download_image ::
  "('bytes, 'img, 'prob) image_env \<Rightarrow> json \<Rightarrow> error + 'img option" where
  "download_image env img_url =
     (case requests_get env img_url of
        Inl e \<Rightarrow> Inl e
      | Inr response \<Rightarrow>
          if ok response
          then (case Image_open env (content response) of
                  Inl e \<Rightarrow> Inl e
                | Inr img \<Rightarrow> Inr (Some img))
          else Inr None)"

definition get_image_from_tweet ::
  "('bytes, 'img, 'prob) image_env \<Rightarrow> json \<Rightarrow> error + 'img option" where
  "get_image_from_tweet env tweet =
     (case get_img_url tweet of
        Inl e \<Rightarrow> Inl e
      | Inr img_url \<Rightarrow>
          if truthy img_url then download_image env img_url
          else (case log_tweet_id tweet of Some e \<Rightarrow> Inl e | None \<Rightarrow> Inr None))"

text \<open>\<open>_format_output\<close>: each (code, description, probability) becomes three strings.\<close>

definition format_output ::
  "('bytes, 'img, 'prob) image_env \<Rightarrow> (string \<times> string \<times> 'prob) list \<Rightarrow>
   (string \<times> string \<times> string) list" where
  "format_output env predictions =
     map (\<lambda>(code, description, probability). (description, str_prob env probability, code))
       predictions"

text \<open>\<open>enrichment_value\<close>; an image object is always true in \<open>if img:\<close>.\<close>

definition enrichment_value ::
  "('bytes, 'img, 'prob) image_env \<Rightarrow> ImageLabel \<Rightarrow> json \<Rightarrow>
   error + (string \<times> string \<times> string) list option" where
  "enrichment_value env self tweet =
     (case get_image_from_tweet env tweet of
        Inl e \<Rightarrow> Inl e
      | Inr None \<Rightarrow> Inr None
      | Inr (Some img) \<Rightarrow>
          (case make_predictions env img (topk self) of
             Inl e \<Rightarrow> Inl e
           | Inr predictions \<Rightarrow> Inr (Some (format_output env predictions))))"

section \<open>Example inputs\<close>

definition scalar_x :: Counter where
  "scalar_x = \<lparr>class_name = ''TweetCounter'', filters = None, counter = 3\<rparr>"

definition scalar_y :: Counter where
  "scalar_y = \<lparr>class_name = ''TweetCounter'', filters = None, counter = 4\<rparr>"

definition scalar_z :: Counter where
  "scalar_z = \<lparr>class_name = ''TweetCounter'', filters = None, counter = 10\<rparr>"

definition mentions_a :: Counters where
  "mentions_a = \<lparr>class_name = ''MentionCounters'', filters = None,
     counters = [(''ann'', 2), (''bob'', 5)], counters_default = True\<rparr>"

definition mentions_b :: Counters where
  "mentions_b = \<lparr>class_name = ''MentionCounters'', filters = None,
     counters = [(''bob'', 1), (''cy'', 1)], counters_default = True\<rparr>"

definition mentions_c :: Counters where
  "mentions_c = \<lparr>class_name = ''MentionCounters'', filters = None,
     counters = [(''cy'', 4), (''ann'', 1)], counters_default = True\<rparr>"

definition abc :: GetCounters where
  "abc = \<lparr>class_name = ''CutoffTopMentions'', filters = None,
     counters = [(''a'', 2), (''b'', 5), (''c'', 1)], counters_default = True,
     top_k = Some 2, min_n = Some 2\<rparr>"

definition tied :: GetCounters where
  "tied = \<lparr>class_name = ''TopMentions'', filters = None,
     counters = [(''a'', 1), (''b'', 1)], counters_default = True,
     top_k = Some 2, min_n = None\<rparr>"

definition rare :: GetCounters where
  "rare = \<lparr>class_name = ''CutoffMentions'', filters = None,
     counters = [(''a'', 1), (''b'', 5)], counters_default = True,
     top_k = None, min_n = None\<rparr>"

section \<open>The views as the specification words them\<close>

text \<open>
  TopK(n) in the specification's words: the entries sorted by count descending, ties
  keeping the iteration order of the snapshot (a stable sort), at most \<open>n\<close> of them, as
  (count, label).
\<close>

definition TopK_spec :: "int \<Rightarrow> int dict \<Rightarrow> (int \<times> string) list" where
  "TopK_spec n snapshot =
     map (\<lambda>(name, count). (count, name))
       (take (nat n) (sort_key (\<lambda>(name, count). - count) snapshot))"

section \<open>Evaluating one filter\<close>

text \<open>
  A filter passes on a tweet when its path resolves and its comparator returns true; its
  comparator evaluates false when the path resolves and the comparator returns false.
\<close>

definition filter_passes :: "filter \<Rightarrow> json \<Rightarrow> bool" where
  "filter_passes f tweet =
     (case f of (key_path, comparator, v) \<Rightarrow>
        (case get_element tweet key_path of
           Inl e \<Rightarrow> False
         | Inr data \<Rightarrow> comparator data v = Inr True))"

definition filter_fails :: "filter \<Rightarrow> json \<Rightarrow> bool" where
  "filter_fails f tweet =
     (case f of (key_path, comparator, v) \<Rightarrow>
        (case get_element tweet key_path of
           Inl e \<Rightarrow> False
         | Inr data \<Rightarrow> comparator data v = Inr False))"

section \<open>Example records and filters\<close>

text \<open>
  \<open>operator.eq\<close> against a string: a JSON value equals a string exactly when it is that
  string. \<open>retweet_filter\<close> is the filter of the source.
\<close>

definition operator_eq :: comparator where
  "operator_eq data v = Inr (data = v)"

definition retweet_filter :: filter where
  "retweet_filter = ([''verb''], operator_eq, JStr ''share'')"

definition lang_filter :: filter where
  "lang_filter = ([''twitter_lang''], operator_eq, JStr ''en'')"

definition object_verb_filter :: filter where
  "object_verb_filter = ([''object'', ''verb''], operator_eq, JStr ''post'')"

definition verb_filter :: filter where
  "verb_filter = ([''verb''], operator_eq, JStr ''post'')"

definition media_entities :: json where
  "media_entities =
     JObj [(''media'', JList [JObj [(''media_url'', JStr ''http://pbs.example/1.jpg'')],
                              JObj [(''media_url'', JStr ''http://pbs.example/2.jpg'')]])]"

definition share_fr :: json where
  "share_fr =
     JObj [(''id'', JStr ''tag:search.twitter.com,2005:1''),
           (''verb'', JStr ''share''),
           (''twitter_lang'', JStr ''fr''),
           (''twitter_entities'', media_entities),
           (''enrichments'',
              JObj [(''NLTKSpaceTokenizeBody'', JList [JStr ''cat'', JStr ''bird'', JStr ''cat''])])]"

definition share_en :: json where
  "share_en =
     JObj [(''id'', JStr ''tag:search.twitter.com,2005:2''),
           (''verb'', JStr ''share''),
           (''twitter_lang'', JStr ''en''),
           (''enrichments'',
              JObj [(''NLTKSpaceTokenizeBody'', JList [JStr ''cat'', JStr ''bird'', JStr ''cat''])])]"

definition no_verb :: json where
  "no_verb = JObj [(''id'', JStr ''tag:search.twitter.com,2005:3'')]"

definition no_object_verb :: json where
  "no_object_verb = JObj [(''id'', JStr ''tag:search.twitter.com,2005:4''), (''object'', JObj [])]"

definition any_token :: "json \<Rightarrow> bool" where
  "any_token token = True"

definition same_term :: "json \<Rightarrow> string \<Rightarrow> bool" where
  "same_term token term = (token = JStr term)"

definition pets :: "filter list option \<Rightarrow> SpecifiedTermCounters" where
  "pets fs = \<lparr>class_name = ''PetTerms'', filters = fs, counters = [], counters_default = True,
     term_list = [''cat'', ''dog'']\<rparr>"

definition pets_update ::
  "SpecifiedTermCounters \<Rightarrow> json \<Rightarrow> error option \<times> SpecifiedTermCounters" where
  "pets_update = SpecifiedBodyTermCounters_update any_token same_term"

definition url_lengths :: MeasurementBase where
  "url_lengths = \<lparr>class_name = ''UrlLengths'', filters = None\<rparr>"

section \<open>The tokens a call counts\<close>

text \<open>
  The tokens that \<open>update\<close> iterates over in a call of \<open>add_tweet\<close>: those of \<open>get_tokens\<close>
  when the filters let the tweet through, none when a filter ends the call or
  \<open>get_tokens\<close> raises.
\<close>

definition tokens_ingested ::
  "(json \<Rightarrow> error + json list) \<Rightarrow> 'a MeasurementBase_scheme \<Rightarrow> json \<Rightarrow> json list" where
  "tokens_ingested get_tokens self tweet =
     (case (case filters self of None \<Rightarrow> None | Some fs \<Rightarrow> run_filters fs tweet) of
        Some out \<Rightarrow> []
      | None \<Rightarrow> (case get_tokens tweet of Inl e \<Rightarrow> [] | Inr tokens \<Rightarrow> tokens))"

text \<open>The terms of the list that some counted token of the tweets matches.\<close>

definition matched ::
  "(json \<Rightarrow> error + json list) \<Rightarrow> (json \<Rightarrow> string \<Rightarrow> bool) \<Rightarrow>
   'a SpecifiedTermCounters_scheme \<Rightarrow> json list \<Rightarrow> string set" where
  "matched get_tokens term_comparator self tweets =
     {term \<in> set (term_list self).
        \<exists>tweet \<in> set tweets.
          \<exists>token \<in> set (tokens_ingested get_tokens self tweet). term_comparator token term}"

section \<open>Example environments of the image enrichment\<close>

definition six_predictions :: "(string \<times> string \<times> string) list" where
  "six_predictions =
     [(''n02123045'', ''tabby'', ''0.52''), (''n02123159'', ''tiger_cat'', ''0.21''),
      (''n02124075'', ''Egyptian_cat'', ''0.11''), (''n02127052'', ''lynx'', ''0.05''),
      (''n02123394'', ''Persian_cat'', ''0.03''), (''n02123597'', ''Siamese_cat'', ''0.01'')]"

definition online_env :: "(string, string, string) image_env" where
  "online_env =
     \<lparr>requests_get = (\<lambda>url. Inr \<lparr>ok = True, status_code = 200, content = ''jpeg''\<rparr>),
      Image_open = (\<lambda>bytes. Inr bytes),
      make_predictions = (\<lambda>img k. Inr (take (nat k) six_predictions)),
      str_prob = (\<lambda>p. p)\<rparr>"

definition not_found_env :: "(string, string, string) image_env" where
  "not_found_env =
     online_env\<lparr>requests_get := (\<lambda>url. Inr \<lparr>ok = False, status_code = 404, content = []\<rparr>)\<rparr>"

definition offline_env :: "(string, string, string) image_env" where
  "offline_env = online_env\<lparr>requests_get := (\<lambda>url. Inl (RequestException ''ConnectionError''))\<rparr>"

section \<open>Merging accumulators\<close>

lemma map_of_dict_set: "map_of (dict_set d k v) = (map_of d)(k \<mapsto> v)"
  by (induction d) (auto simp: fun_eq_iff)

lemma keys_dict_set:
  "map fst (dict_set d k v) = (if k \<in> fst ` set d then map fst d else map fst d @ [k])"
  by (induction d) (force simp: image_iff)+

lemma distinct_dict_set: "distinct (map fst d) \<Longrightarrow> distinct (map fst (dict_set d k v))"
  by (simp add: keys_dict_set)

lemma merged_commute: "merged x y = merged y x"
  by (simp add: merged_def split: option.splits)

lemma merged_assoc: "merged (merged x y) z = merged x (merged y z)"
  by (simp add: merged_def split: option.splits)

lemma map_of_combine_items:
  "distinct (map fst new) \<Longrightarrow>
   map_of (combine_items cs new) k = merged (map_of cs k) (map_of new k)"
proof (induction new arbitrary: cs)
  case Nil
  show ?case by (simp add: merged_def split: option.splits)
next
  case (Cons p new)
  obtain n c where p: "p = (n, c)" by (cases p)
  from Cons.prems p have d: "distinct (map fst new)" and fresh: "map_of new n = None"
    by (auto simp: map_of_eq_None_iff)
  show ?case
    using Cons.IH [OF d] fresh
    by (auto simp: p map_of_dict_set merged_def split: option.splits)
qed

lemma distinct_combine_items:
  "distinct (map fst cs) \<Longrightarrow> distinct (map fst (combine_items cs new))"
  by (induction new arbitrary: cs) (auto simp: distinct_dict_set split: option.splits)

text \<open>
  C1. Merging is independent of the order and of the grouping of the merges. For two
  scalar counters the merged count is the same whichever absorbs the other, and for three
  the grouping does not matter. For two named-count dicts the merged dict maps every name
  to the same count whichever absorbs the other, and likewise for the two groupings of
  three; dicts are compared as Python compares them, as mappings from name to count (the
  order in which the names were inserted does differ, see \<open>combine_order_example\<close>).
\<close>

theorem combine_commutative_associative:
  fixes x :: "'a Counter_scheme" and y :: "'a Counter_scheme" and z :: "'a Counter_scheme"
    and a :: "'b Counters_scheme" and b :: "'b Counters_scheme" and c :: "'b Counters_scheme"
  assumes "distinct (map fst (counters a))"
    and "distinct (map fst (counters b))"
    and "distinct (map fst (counters c))"
  shows "counter (Counter_combine x y) = counter (Counter_combine y x)
       \<and> counter (Counter_combine (Counter_combine x y) z)
           = counter (Counter_combine x (Counter_combine y z))
       \<and> map_of (counters (Counters_combine a b)) = map_of (counters (Counters_combine b a))
       \<and> map_of (counters (Counters_combine (Counters_combine a b) c))
           = map_of (counters (Counters_combine a (Counters_combine b c)))"
proof -
  have comm: "map_of (counters (Counters_combine a b)) k
            = map_of (counters (Counters_combine b a)) k" for k
    using assms by (simp add: Counters_combine_def map_of_combine_items merged_commute)
  have assoc: "map_of (counters (Counters_combine (Counters_combine a b) c)) k
           = map_of (counters (Counters_combine a (Counters_combine b c))) k" for k
    using assms distinct_combine_items [of "counters b" "counters c"]
    by (simp add: Counters_combine_def map_of_combine_items merged_assoc)
  show ?thesis
    using comm assoc by (auto simp: Counter_combine_def fun_eq_iff)
qed

theorem combine_commutative_associative_witness:
  "distinct (map fst (counters mentions_a)) \<and> distinct (map fst (counters mentions_b))
   \<and> distinct (map fst (counters mentions_c))
   \<and> counter (Counter_combine scalar_x scalar_y) = counter (Counter_combine scalar_y scalar_x)
   \<and> counter (Counter_combine (Counter_combine scalar_x scalar_y) scalar_z)
       = counter (Counter_combine scalar_x (Counter_combine scalar_y scalar_z))
   \<and> map_of (counters (Counters_combine mentions_a mentions_b))
       = map_of (counters (Counters_combine mentions_b mentions_a))
   \<and> map_of (counters (Counters_combine (Counters_combine mentions_a mentions_b) mentions_c))
       = map_of (counters (Counters_combine mentions_a (Counters_combine mentions_b mentions_c)))"
proof -
  have d: "distinct (map fst (counters mentions_a))" "distinct (map fst (counters mentions_b))"
    "distinct (map fst (counters mentions_c))"
    by (simp_all add: mentions_a_def mentions_b_def mentions_c_def)
  show ?thesis
    using d combine_commutative_associative [OF d, of scalar_x scalar_y scalar_z] by simp
qed

text \<open>The two merges of the example hold the same counts in a different order of insertion.\<close>

lemma combine_order_example:
  "counters (Counters_combine mentions_a mentions_b) = [(''ann'', 2), (''bob'', 6), (''cy'', 1)]
   \<and> counters (Counters_combine mentions_b mentions_a) = [(''bob'', 6), (''cy'', 1), (''ann'', 2)]"
  by (simp add: Counters_combine_def mentions_a_def mentions_b_def)

section \<open>Top counts\<close>

lemma sorted_top_desc: "sorted_wrt (\<lambda>p q. snd p \<ge> snd q) (sorted_top cs)"
proof -
  have "sorted (map snd (sort_key snd cs))" by (rule sorted_sort_key)
  then have "sorted_wrt (\<lambda>p q. snd p \<le> snd q) (sort_key snd cs)"
    by (simp add: sorted_map)
  then show ?thesis
    by (simp add: sorted_top_def sorted_wrt_rev)
qed

lemma sorted_top_ties:
  "filter (\<lambda>p. snd p = c) (sorted_top cs) = rev (filter (\<lambda>p. snd p = c) cs)"
  by (simp add: sorted_top_def rev_filter [symmetric] sort_key_stable)

lemma slice_to_nonneg: "0 \<le> k \<Longrightarrow> slice_to xs k = take (nat k) xs"
  by (simp add: slice_to_def)

lemma GetTopCounts_get_output:
  "fst (GetTopCounts_get s self) =
     map (\<lambda>(name, count). (count, name))
       (slice_to (sorted_top (sanitized s (counters self)))
          (case top_k self of None \<Rightarrow> 20 | Some k \<Rightarrow> k))"
  by (simp add: GetTopCounts_get_def get_init_def Let_def split: option.splits)

text \<open>
  C2, as stated, fails: among entries of equal count the view returns the later entry of
  the snapshot first, where the specification's stable descending sort keeps the earlier
  one first.
\<close>

theorem topk_ties_counterexample:
  "fst (GetTopCounts_get id tied) = [(1, ''b''), (1, ''a'')]
   \<and> TopK_spec 2 (counters (get_init id tied)) = [(1, ''a''), (1, ''b'')]
   \<and> fst (GetTopCounts_get id tied) \<noteq> TopK_spec 2 (counters (get_init id tied))"
  by (simp add: GetTopCounts_get_def TopK_spec_def get_init_def sanitized_def tied_def
      slice_to_def sorted_top_def)

text \<open>
  C2, amended. For a view size \<open>n \<ge> 0\<close> (20 when \<open>top_k\<close> is not set) the TopK view returns
  the first \<open>n\<close> entries of the ranking of the sanitized snapshot: at most \<open>n\<close> entries,
  counts non-increasing, and in the ranking the entries of any one count stand in the
  reverse of the snapshot's iteration order.
\<close>

theorem topk_sorted_bounded_ties_reversed:
  assumes "0 \<le> (case top_k self of None \<Rightarrow> 20 | Some k \<Rightarrow> k)"
  shows "length (fst (GetTopCounts_get s self)) \<le> nat (case top_k self of None \<Rightarrow> 20 | Some k \<Rightarrow> k)
       \<and> sorted_wrt (\<lambda>p q. fst p \<ge> fst q) (fst (GetTopCounts_get s self))
       \<and> fst (GetTopCounts_get s self)
           = take (nat (case top_k self of None \<Rightarrow> 20 | Some k \<Rightarrow> k))
               (map (\<lambda>(name, count). (count, name)) (sorted_top (sanitized s (counters self))))
       \<and> (\<forall>c. filter (\<lambda>p. snd p = c) (sorted_top (sanitized s (counters self)))
              = rev (filter (\<lambda>p. snd p = c) (sanitized s (counters self))))"
proof -
  let ?k = "case top_k self of None \<Rightarrow> 20 | Some k \<Rightarrow> k"
  let ?full = "sorted_top (sanitized s (counters self))"
  have out: "fst (GetTopCounts_get s self)
               = map (\<lambda>(name, count). (count, name)) (take (nat ?k) ?full)"
    using assms by (simp add: GetTopCounts_get_output slice_to_nonneg)
  have "sorted_wrt (\<lambda>p q. snd p \<ge> snd q) (take (nat ?k) ?full)"
    using sorted_top_desc by (rule sorted_wrt_take)
  then have desc: "sorted_wrt (\<lambda>p q. fst p \<ge> fst q) (fst (GetTopCounts_get s self))"
    by (simp add: out sorted_wrt_map case_prod_beta)
  show ?thesis
    using desc by (simp add: out take_map sorted_top_ties)
qed

theorem topk_sorted_bounded_ties_reversed_witness:
  "0 \<le> (case top_k tied of None \<Rightarrow> 20 | Some k \<Rightarrow> k)
   \<and> fst (GetTopCounts_get id tied) = [(1, ''b''), (1, ''a'')]
   \<and> length (fst (GetTopCounts_get id tied)) \<le> 2
   \<and> sorted_top (sanitized id (counters tied)) = rev (sanitized id (counters tied))"
proof -
  have h: "0 \<le> (case top_k tied of None \<Rightarrow> 20 | Some k \<Rightarrow> k)"
    by (simp add: tied_def)
  have v: "sanitized id (counters tied) = [(''a'', 1), (''b'', 1)]"
    by (simp add: sanitized_def tied_def)
  have k: "top_k tied = Some 2"
    by (simp add: tied_def)
  from topk_sorted_bounded_ties_reversed [OF h, of id]
  have "fst (GetTopCounts_get id tied)
          = take 2 (map (\<lambda>(name, count). (count, name)) (sorted_top (sanitized id (counters tied))))"
    and "filter (\<lambda>p. snd p = 1) (sorted_top (sanitized id (counters tied)))
          = rev (filter (\<lambda>p. snd p = 1) (sanitized id (counters tied)))"
    and "length (fst (GetTopCounts_get id tied)) \<le> 2"
    by (simp_all add: k)
  then show ?thesis
    using h by (simp add: v sorted_top_def)
qed

section \<open>What a view leaves in the object\<close>

lemma dict_set_fresh: "k \<notin> fst ` set d \<Longrightarrow> dict_set d k v = d @ [(k, v)]"
  by (induction d) auto

lemma foldl_dict_set_fresh:
  "distinct (map fst (acc @ cs)) \<Longrightarrow> \<forall>name \<in> fst ` set cs. s name = name \<Longrightarrow>
   foldl (\<lambda>d (name, count). dict_set d (s name) count) acc cs = acc @ cs"
proof (induction cs arbitrary: acc)
  case Nil
  show ?case by simp
next
  case (Cons p cs)
  obtain n c where p: "p = (n, c)" by (cases p)
  from Cons.prems p have fresh: "n \<notin> fst ` set acc" and sn: "s n = n"
    by auto
  have step: "dict_set acc (s n) c = acc @ [(n, c)]"
    using fresh by (simp add: sn dict_set_fresh)
  have "distinct (map fst ((acc @ [(n, c)]) @ cs))"
    using Cons.prems(1) p by auto
  moreover have "\<forall>name \<in> fst ` set cs. s name = name"
    using Cons.prems(2) by auto
  ultimately have "foldl (\<lambda>d (name, count). dict_set d (s name) count) (acc @ [(n, c)]) cs
      = (acc @ [(n, c)]) @ cs"
    by (rule Cons.IH)
  then show ?case
    by (simp add: p step)
qed

lemma sanitized_unchanged:
  "distinct (map fst cs) \<Longrightarrow> \<forall>name \<in> fst ` set cs. s name = name \<Longrightarrow> sanitized s cs = cs"
  using foldl_dict_set_fresh [of "[]" cs s] by (simp add: sanitized_def)

text \<open>
  C3, as stated, fails: \<open>get\<close> of the Cutoff view assigns the surviving entries to
  \<open>self.counters\<close>, so an entry below \<open>min_n\<close> is gone from the accumulator afterwards.
\<close>

theorem get_mutates_counterexample:
  "counters rare = [(''a'', 1), (''b'', 5)]
   \<and> counters (snd (GetCutoffCounts_get id rare)) = [(''b'', 5)]
   \<and> map_of (counters (snd (GetCutoffCounts_get id rare))) \<noteq> map_of (counters rare)"
proof -
  have before: "counters rare = [(''a'', 1), (''b'', 5)]"
    by (simp add: rare_def)
  have after: "counters (snd (GetCutoffCounts_get id rare)) = [(''b'', 5)]"
    by (simp add: GetCutoffCounts_get_def get_init_def sanitized_def rare_def)
  have "map_of (counters (snd (GetCutoffCounts_get id rare))) ''a''
          \<noteq> map_of (counters rare) ''a''"
    by (simp add: before after)
  then have "map_of (counters (snd (GetCutoffCounts_get id rare))) \<noteq> map_of (counters rare)"
    by metis
  then show ?thesis
    using before after by simp
qed

text \<open>
  C3, amended. When the sanitizer leaves every name of the counters unchanged, \<open>get\<close> of
  the TopK view leaves the named counts as they were, and so does the call of the
  CutoffThenTopK view; \<open>get\<close> of the Cutoff view leaves exactly the entries whose count is
  at least \<open>min_n\<close> (3 when not set), in their order.
\<close>

theorem get_state_after:
  fixes self :: "'a GetCounters_scheme"
  assumes "distinct (map fst (counters self))"
    and "\<forall>name \<in> fst ` set (counters self). s name = name"
  shows "counters (snd (GetTopCounts_get s self)) = counters self
       \<and> counters (snd (GetCutoffTopCounts_get s self)) = counters self
       \<and> counters (snd (GetCutoffCounts_get s self))
           = filter (\<lambda>(name, count). count \<ge> (case min_n self of None \<Rightarrow> 3 | Some n \<Rightarrow> n))
               (counters self)"
  using sanitized_unchanged [OF assms]
  by (simp add: GetTopCounts_get_def GetCutoffTopCounts_get_def GetCutoffCounts_get_def
      get_init_def Let_def split: option.splits)

theorem get_state_after_witness:
  "distinct (map fst (counters rare))
   \<and> counters (snd (GetTopCounts_get id rare)) = [(''a'', 1), (''b'', 5)]
   \<and> counters (snd (GetCutoffTopCounts_get id rare)) = [(''a'', 1), (''b'', 5)]
   \<and> counters (snd (GetCutoffCounts_get id rare)) = [(''b'', 5)]"
proof -
  have d: "distinct (map fst (counters rare))"
    by (simp add: rare_def)
  have i: "\<forall>name \<in> fst ` set (counters rare). id name = name"
    by simp
  have c: "counters rare = [(''a'', 1), (''b'', 5)]" and m: "min_n rare = None"
    by (simp_all add: rare_def)
  show ?thesis
    using d get_state_after [where s = id and self = rare, OF d i] by (simp add: c m)
qed

text \<open>
  C4. The call of the CutoffThenTopK view ends in \<open>AttributeError\<close> on the counts
  a:2, b:5, c:1 with \<open>min_n = 2\<close> and \<open>top_k = 2\<close>, where the Cutoff view followed by the
  TopK view gives (5, b), (2, a).
\<close>

theorem cutoff_top_get_raises:
  "fst (GetCutoffTopCounts_get id abc) = Inl (AttributeError ''super'' ''get'')
   \<and> fst (GetTopCounts_get id (snd (GetCutoffCounts_get id abc))) = [(5, ''b''), (2, ''a'')]"
  by (simp add: GetCutoffTopCounts_get_def GetTopCounts_get_def GetCutoffCounts_get_def
      get_init_def sanitized_def abc_def slice_to_def sorted_top_def)

section \<open>Filters\<close>

lemma run_filters_append:
  "\<forall>g \<in> set pre. filter_passes g tweet \<Longrightarrow> run_filters (pre @ fs) tweet = run_filters fs tweet"
  by (induction pre) (auto simp: filter_passes_def split: sum.splits)

lemma run_filters_None:
  "run_filters fs tweet = None \<Longrightarrow> f \<in> set fs \<Longrightarrow> filter_passes f tweet"
  by (induction fs) (auto simp: filter_passes_def split: sum.splits if_splits)

lemma run_filters_not_Updated: "run_filters fs tweet \<noteq> Some Updated"
  by (induction fs) (auto split: sum.splits if_splits)

lemma fails_not_passes: "filter_fails f tweet \<Longrightarrow> \<not> filter_passes f tweet"
  by (cases f; cases "get_element tweet (fst f)") (auto simp: filter_fails_def filter_passes_def)

lemma run_filters_fails:
  "filter_fails f tweet \<Longrightarrow> run_filters (f # fs) tweet = Some Rejected"
  by (cases f; cases "get_element tweet (fst f)") (auto simp: filter_fails_def)

text \<open>
  C5. When the filters before \<open>f\<close> pass on the tweet and the comparator of \<open>f\<close> evaluates
  false, \<open>add_tweet\<close> returns at that filter with the object unchanged: whatever the
  filters after \<open>f\<close> are (they are not evaluated) and whatever \<open>update\<close> is (it is not
  called). And whenever the comparator of some configured filter evaluates false on the
  tweet, the call ends without \<open>update\<close>, in the same way for every \<open>update\<close>, and leaves
  the object unchanged.
\<close>

theorem failed_filter_skips_update:
  fixes self :: "'a MeasurementBase_scheme"
  shows "(filters self = Some (pre @ f # post) \<and> (\<forall>g \<in> set pre. filter_passes g tweet)
          \<and> filter_fails f tweet
          \<longrightarrow> (\<forall>post' u. add_tweet u (self\<lparr>filters := Some (pre @ f # post')\<rparr>) tweet
                            = (Rejected, self\<lparr>filters := Some (pre @ f # post')\<rparr>)))
       \<and> (filters self = Some fs \<and> (\<exists>g \<in> set fs. filter_fails g tweet)
          \<longrightarrow> (\<exists>out. out \<noteq> Updated \<and> (\<forall>u. add_tweet u self tweet = (out, self))))"
proof (intro conjI impI)
  assume a: "filters self = Some (pre @ f # post) \<and> (\<forall>g \<in> set pre. filter_passes g tweet)
          \<and> filter_fails f tweet"
  have "run_filters (pre @ f # ps) tweet = Some Rejected" for ps
    using a by (simp add: run_filters_append run_filters_fails)
  then show "\<forall>post' u. add_tweet u (self\<lparr>filters := Some (pre @ f # post')\<rparr>) tweet
                            = (Rejected, self\<lparr>filters := Some (pre @ f # post')\<rparr>)"
    by (simp add: add_tweet_def)
next
  assume b: "filters self = Some fs \<and> (\<exists>g \<in> set fs. filter_fails g tweet)"
  then obtain g where g: "g \<in> set fs" "filter_fails g tweet" by blast
  have "run_filters fs tweet \<noteq> None"
    using g run_filters_None fails_not_passes by blast
  then obtain out where out: "run_filters fs tweet = Some out" by blast
  have "out \<noteq> Updated"
    using out run_filters_not_Updated [of fs tweet] by auto
  moreover have "\<forall>u. add_tweet u self tweet = (out, self)"
    using b out by (simp add: add_tweet_def)
  ultimately show "\<exists>out. out \<noteq> Updated \<and> (\<forall>u. add_tweet u self tweet = (out, self))"
    by blast
qed

lemma pets_filters: "filters (pets fs) = fs"
  by (simp add: pets_def)

lemma passes_retweet: "filter_passes retweet_filter share_fr"
  by (simp add: filter_passes_def retweet_filter_def share_fr_def operator_eq_def)

lemma fails_lang: "filter_fails lang_filter share_fr"
  by (simp add: filter_fails_def lang_filter_def share_fr_def operator_eq_def)

theorem failed_filter_skips_update_witness:
  "filters (pets (Some [retweet_filter, lang_filter, object_verb_filter]))
     = Some ([retweet_filter] @ lang_filter # [object_verb_filter])
   \<and> filter_passes retweet_filter share_fr
   \<and> filter_fails lang_filter share_fr
   \<and> (\<exists>g \<in> set [retweet_filter, lang_filter, object_verb_filter]. filter_fails g share_fr)
   \<and> add_tweet pets_update (pets (Some [retweet_filter, lang_filter, object_verb_filter])) share_fr
       = (Rejected, pets (Some [retweet_filter, lang_filter, object_verb_filter]))
   \<and> add_tweet pets_update (pets (Some [retweet_filter, lang_filter])) share_fr
       = (Rejected, pets (Some [retweet_filter, lang_filter]))"
proof -
  let ?m = "pets (Some [retweet_filter, lang_filter, object_verb_filter])"
  have h1: "filters ?m = Some ([retweet_filter] @ lang_filter # [object_verb_filter])"
    by (simp add: pets_filters)
  have h2: "\<forall>g \<in> set [retweet_filter]. filter_passes g share_fr"
    by (simp add: passes_retweet)
  have h3: "filter_fails lang_filter share_fr"
    by (rule fails_lang)
  have h4: "\<exists>g \<in> set [retweet_filter, lang_filter, object_verb_filter]. filter_fails g share_fr"
    using h3 by simp
  from failed_filter_skips_update
    [of ?m "[retweet_filter]" lang_filter "[object_verb_filter]" share_fr]
  have all: "\<forall>post' u. add_tweet u (?m\<lparr>filters := Some ([retweet_filter] @ lang_filter # post')\<rparr>) share_fr
                = (Rejected, ?m\<lparr>filters := Some ([retweet_filter] @ lang_filter # post')\<rparr>)"
    using h1 h2 h3 by blast
  have m3: "?m\<lparr>filters := Some ([retweet_filter] @ lang_filter # [object_verb_filter])\<rparr> = ?m"
    and m2: "?m\<lparr>filters := Some ([retweet_filter] @ lang_filter # [])\<rparr>
               = pets (Some [retweet_filter, lang_filter])"
    by (simp_all add: pets_def)
  from all have "add_tweet pets_update
       (?m\<lparr>filters := Some ([retweet_filter] @ lang_filter # [object_verb_filter])\<rparr>) share_fr
       = (Rejected, ?m\<lparr>filters := Some ([retweet_filter] @ lang_filter # [object_verb_filter])\<rparr>)"
    and "add_tweet pets_update (?m\<lparr>filters := Some ([retweet_filter] @ lang_filter # [])\<rparr>) share_fr
       = (Rejected, ?m\<lparr>filters := Some ([retweet_filter] @ lang_filter # [])\<rparr>)"
    by blast+
  then have "add_tweet pets_update ?m share_fr = (Rejected, ?m)"
    and "add_tweet pets_update (pets (Some [retweet_filter, lang_filter])) share_fr
       = (Rejected, pets (Some [retweet_filter, lang_filter]))"
    by (simp_all only: m3 m2)
  then show ?thesis
    using h1 h3 h4 passes_retweet by simp
qed

section \<open>Resolving a key path\<close>

lemma collect_map_Inr:
  "list_all2 (\<lambda>x r. f x = Inr r) xs rs \<Longrightarrow> collect (map f xs) = Inr rs"
  by (induction rule: list_all2_induct) auto

lemma collect_map_D:
  "collect (map f xs) = Inr rs \<Longrightarrow> list_all2 (\<lambda>x r. f x = Inr r) xs rs"
  by (induction xs arbitrary: rs) (auto split: sum.splits)

text \<open>
  C6. Where the value under the first key is a list and keys remain, \<open>get_element\<close>
  resolves the remaining path against every element: it returns a value exactly when every
  element resolves, and the value is then the list of the elements' results, one for each
  element and in the order of the elements.
\<close>

theorem get_element_fans_out:
  assumes "getitem data key = Inr (JList os)"
  shows "get_element data (key # k # ks) = Inr v
         \<longleftrightarrow> (\<exists>rs. v = JList rs \<and> list_all2 (\<lambda>el r. get_element el (k # ks) = Inr r) os rs)"
proof
  assume "get_element data (key # k # ks) = Inr v"
  then obtain rs where "collect (map (\<lambda>el. get_element el (k # ks)) os) = Inr rs" "v = JList rs"
    using assms by (auto split: sum.splits)
  then show "\<exists>rs. v = JList rs \<and> list_all2 (\<lambda>el r. get_element el (k # ks) = Inr r) os rs"
    using collect_map_D by blast
next
  assume "\<exists>rs. v = JList rs \<and> list_all2 (\<lambda>el r. get_element el (k # ks) = Inr r) os rs"
  then obtain rs where rs: "v = JList rs"
    "list_all2 (\<lambda>el r. get_element el (k # ks) = Inr r) os rs" by blast
  have "collect (map (\<lambda>el. get_element el (k # ks)) os) = Inr rs"
    using rs(2) by (rule collect_map_Inr)
  then show "get_element data (key # k # ks) = Inr v"
    using assms rs(1) by simp
qed

theorem get_element_fans_out_witness:
  "getitem media_entities ''media''
     = Inr (JList [JObj [(''media_url'', JStr ''http://pbs.example/1.jpg'')],
                   JObj [(''media_url'', JStr ''http://pbs.example/2.jpg'')]])
   \<and> get_element media_entities [''media'', ''media_url'']
       = Inr (JList [JStr ''http://pbs.example/1.jpg'', JStr ''http://pbs.example/2.jpg''])"
proof -
  let ?os = "[JObj [(''media_url'', JStr ''http://pbs.example/1.jpg'')],
              JObj [(''media_url'', JStr ''http://pbs.example/2.jpg'')]]"
  let ?rs = "[JStr ''http://pbs.example/1.jpg'', JStr ''http://pbs.example/2.jpg'']"
  have h: "getitem media_entities ''media'' = Inr (JList ?os)"
    by (simp add: media_entities_def)
  have each: "list_all2 (\<lambda>el r. get_element el [''media_url''] = Inr r) ?os ?rs"
    by simp
  have "get_element media_entities [''media'', ''media_url''] = Inr (JList ?rs)"
    using get_element_fans_out [OF h, of "''media_url''" "[]" "JList ?rs"] each by blast
  then show ?thesis
    using h by simp
qed

text \<open>The same on a whole record, whose media list has two entries.\<close>

lemma get_element_record_example:
  "get_element share_fr [''twitter_entities'', ''media'', ''media_url'']
     = Inr (JList [JStr ''http://pbs.example/1.jpg'', JStr ''http://pbs.example/2.jpg''])"
  by (simp add: share_fr_def media_entities_def)

section \<open>The default combine\<close>

text \<open>
  C7, as stated, fails: the message of the exception is a fixed text, and the name of the
  class does not occur in it.
\<close>

theorem combine_message_counterexample:
  "get_name url_lengths = ''UrlLengths''
   \<and> fst (MeasurementBase_combine url_lengths url_lengths)
       = Some (NotImplementedError
           ''Please implement a 'combine' method for your measurement class'')
   \<and> \<not> contains_str ''Please implement a 'combine' method for your measurement class''
         (get_name url_lengths)"
  by (simp add: MeasurementBase_combine_def get_name_def url_lengths_def)

text \<open>
  C7, amended. \<open>combine\<close> of \<open>MeasurementBase\<close> raises \<open>NotImplementedError\<close> with one
  fixed message, the same for every class, and leaves the object as it was.
\<close>

theorem default_combine_raises:
  "MeasurementBase_combine self other
     = (Some (NotImplementedError
          ''Please implement a 'combine' method for your measurement class''), self)"
  by (simp add: MeasurementBase_combine_def)

section \<open>Missing keys\<close>

lemma collect_Inl: "collect (map f xs) = Inl e \<Longrightarrow> \<exists>x \<in> set xs. f x = Inl e"
  by (induction xs) (auto split: sum.splits)

lemma getitem_KeyError: "getitem data key = Inl (KeyError k) \<Longrightarrow> k = JStr key"
  by (cases data) (auto split: option.splits)

lemma get_element_KeyError:
  "get_element data key_path = Inl (KeyError k) \<Longrightarrow> \<exists>s \<in> set key_path. k = JStr s"
proof (induction data key_path rule: get_element.induct)
  case (1 data)
  then show ?case by simp
next
  case (2 data key)
  then show ?case by (simp add: getitem_KeyError)
next
  case (3 data key k' ks)
  show ?case
  proof (cases "getitem data key")
    case (Inl e)
    then show ?thesis using "3.prems" by (simp add: getitem_KeyError)
  next
    case (Inr obj)
    show ?thesis
    proof (cases "\<exists>os. obj = JList os")
      case True
      then obtain os where os: "obj = JList os" by blast
      from "3.prems" Inr os
      have "collect (map (\<lambda>el. get_element el (k' # ks)) os) = Inl (KeyError k)"
        by (simp split: sum.splits)
      then obtain el where el: "el \<in> set os" "get_element el (k' # ks) = Inl (KeyError k)"
        using collect_Inl by fastforce
      then show ?thesis using "3.IH" Inr os by fastforce
    next
      case False
      with "3.prems" Inr have "get_element obj (k' # ks) = Inl (KeyError k)"
        by (cases obj) auto
      moreover have "\<exists>s \<in> set (k' # ks). k = JStr s"
        if "get_element obj (k' # ks) = Inl (KeyError k)"
        using that False "3.IH" Inr by (cases obj) auto
      ultimately show ?thesis by auto
    qed
  qed
qed

lemma pets_update_share_fr_rejected:
  "add_tweet pets_update (pets (Some [retweet_filter, lang_filter, object_verb_filter])) share_fr
     = (Rejected, pets (Some [retweet_filter, lang_filter, object_verb_filter]))"
  by (simp add: add_tweet_def pets_def retweet_filter_def lang_filter_def share_fr_def
      operator_eq_def)

text \<open>
  C8, as stated, fails. The exception is the \<open>KeyError\<close> of the failed lookup and carries
  the missing key alone: two records with different identifiers, under filters with
  different paths, raise the same exception. And a filter whose path misses a key raises
  nothing when a filter before it has rejected the record.
\<close>

theorem missing_field_counterexample:
  "add_tweet pets_update (pets (Some [verb_filter])) no_verb
     = (Raised (KeyError (JStr ''verb'')), pets (Some [verb_filter]))
   \<and> add_tweet pets_update (pets (Some [object_verb_filter])) no_object_verb
     = (Raised (KeyError (JStr ''verb'')), pets (Some [object_verb_filter]))
   \<and> fst verb_filter \<noteq> fst object_verb_filter
   \<and> getitem no_verb ''id'' \<noteq> getitem no_object_verb ''id''
   \<and> get_element share_fr (fst object_verb_filter) = Inl (KeyError (JStr ''object''))
   \<and> add_tweet pets_update (pets (Some [retweet_filter, lang_filter, object_verb_filter])) share_fr
     = (Rejected, pets (Some [retweet_filter, lang_filter, object_verb_filter]))"
proof -
  have "add_tweet pets_update (pets (Some [verb_filter])) no_verb
     = (Raised (KeyError (JStr ''verb'')), pets (Some [verb_filter]))"
    by (simp add: add_tweet_def pets_def verb_filter_def no_verb_def)
  moreover have "add_tweet pets_update (pets (Some [object_verb_filter])) no_object_verb
     = (Raised (KeyError (JStr ''verb'')), pets (Some [object_verb_filter]))"
    by (simp add: add_tweet_def pets_def object_verb_filter_def no_object_verb_def)
  moreover have "fst verb_filter \<noteq> fst object_verb_filter"
    by (simp add: verb_filter_def object_verb_filter_def)
  moreover have "getitem no_verb ''id'' \<noteq> getitem no_object_verb ''id''"
    by (simp add: no_verb_def no_object_verb_def)
  moreover have "get_element share_fr (fst object_verb_filter) = Inl (KeyError (JStr ''object''))"
    by (simp add: object_verb_filter_def share_fr_def)
  ultimately show ?thesis
    using pets_update_share_fr_rejected by simp
qed

text \<open>
  C8, amended. When the filters before it pass and the path of a filter meets a missing
  key, \<open>add_tweet\<close> raises the \<open>KeyError\<close> of that lookup, which carries the missing key
  (one of the keys of the path) and nothing else; \<open>update\<close> is not called and the object
  is unchanged.
\<close>

theorem missing_key_raises:
  fixes self :: "'a MeasurementBase_scheme"
  assumes "filters self = Some (pre @ (key_path, comparator, v) # post)"
    and "\<forall>g \<in> set pre. filter_passes g tweet"
    and "get_element tweet key_path = Inl (KeyError key)"
  shows "add_tweet update self tweet = (Raised (KeyError key), self)
       \<and> (\<exists>s \<in> set key_path. key = JStr s)"
proof -
  have "run_filters ((key_path, comparator, v) # post) tweet = Some (Raised (KeyError key))"
    using assms(3) by simp
  then have "run_filters (pre @ (key_path, comparator, v) # post) tweet
               = Some (Raised (KeyError key))"
    using assms(2) by (simp add: run_filters_append)
  then have "add_tweet update self tweet = (Raised (KeyError key), self)"
    using assms(1) by (simp add: add_tweet_def)
  then show ?thesis
    using get_element_KeyError [OF assms(3)] by simp
qed

theorem missing_key_raises_witness:
  "filter_passes retweet_filter share_fr
   \<and> get_element share_fr [''object'', ''verb''] = Inl (KeyError (JStr ''object''))
   \<and> add_tweet pets_update (pets (Some [retweet_filter, object_verb_filter])) share_fr
       = (Raised (KeyError (JStr ''object'')), pets (Some [retweet_filter, object_verb_filter]))"
proof -
  let ?m = "pets (Some [retweet_filter, object_verb_filter])"
  have h1: "filters ?m
      = Some ([retweet_filter] @ ([''object'', ''verb''], operator_eq, JStr ''post'') # [])"
    by (simp add: pets_def object_verb_filter_def)
  have h2: "\<forall>g \<in> set [retweet_filter]. filter_passes g share_fr"
    by (simp add: passes_retweet)
  have h3: "get_element share_fr [''object'', ''verb''] = Inl (KeyError (JStr ''object''))"
    by (simp add: share_fr_def)
  show ?thesis
    using missing_key_raises [OF h1 h2 h3, of pets_update] h3 passes_retweet by simp
qed

section \<open>Specified terms and their entries\<close>

lemma keys_dict_set_set: "fst ` set (dict_set d k v) = insert k (fst ` set d)"
proof -
  have "set (map fst (dict_set d k v)) = insert k (set (map fst d))"
    by (auto simp: keys_dict_set)
  then show ?thesis by simp
qed

lemma set_dict_set: "set (dict_set d k v) \<subseteq> insert (k, v) (set d)"
  by (induction d) (auto split: if_splits)

lemma increment_default:
  "\<exists>cs'. increment True cs t = Inr cs' \<and> fst ` set cs' = insert t (fst ` set cs)
         \<and> ((\<forall>p \<in> set cs. 1 \<le> snd p) \<longrightarrow> (\<forall>p \<in> set cs'. 1 \<le> snd p))"
proof (cases "map_of cs t")
  case None
  have "\<forall>p \<in> set (dict_set cs t 1). 1 \<le> snd p" if "\<forall>p \<in> set cs. 1 \<le> snd p"
    using that set_dict_set [of cs t 1] by auto
  then show ?thesis
    using None by (simp add: increment_def keys_dict_set_set)
next
  case (Some c)
  then have mem: "(t, c) \<in> set cs" by (rule map_of_SomeD)
  have "\<forall>p \<in> set (dict_set cs t (c + 1)). 1 \<le> snd p" if "\<forall>p \<in> set cs. 1 \<le> snd p"
    using that mem set_dict_set [of cs t "c + 1"] by fastforce
  then show ?thesis
    using Some by (simp add: increment_def keys_dict_set_set)
qed

lemma count_terms_default:
  "\<exists>cs'. count_terms cmp True token terms cs = (None, cs')
         \<and> fst ` set cs' = fst ` set cs \<union> {t \<in> set terms. cmp token t}
         \<and> ((\<forall>p \<in> set cs. 1 \<le> snd p) \<longrightarrow> (\<forall>p \<in> set cs'. 1 \<le> snd p))"
proof (induction terms arbitrary: cs)
  case Nil
  show ?case by simp
next
  case (Cons t terms)
  show ?case
  proof (cases "cmp token t")
    case False
    obtain cs' where cs': "count_terms cmp True token terms cs = (None, cs')"
      "fst ` set cs' = fst ` set cs \<union> {t \<in> set terms. cmp token t}"
      "(\<forall>p \<in> set cs. 1 \<le> snd p) \<longrightarrow> (\<forall>p \<in> set cs'. 1 \<le> snd p)"
      using Cons.IH [of cs] by blast
    have "count_terms cmp True token (t # terms) cs = (None, cs')"
      using False cs'(1) by simp
    moreover have "fst ` set cs' = fst ` set cs \<union> {u \<in> set (t # terms). cmp token u}"
      using False cs'(2) by auto
    ultimately show ?thesis using cs'(3) by blast
  next
    case True
    obtain cs1 where cs1: "increment True cs t = Inr cs1"
      "fst ` set cs1 = insert t (fst ` set cs)"
      "(\<forall>p \<in> set cs. 1 \<le> snd p) \<longrightarrow> (\<forall>p \<in> set cs1. 1 \<le> snd p)"
      using increment_default [of cs t] by blast
    obtain cs' where cs': "count_terms cmp True token terms cs1 = (None, cs')"
      "fst ` set cs' = fst ` set cs1 \<union> {t \<in> set terms. cmp token t}"
      "(\<forall>p \<in> set cs1. 1 \<le> snd p) \<longrightarrow> (\<forall>p \<in> set cs'. 1 \<le> snd p)"
      using Cons.IH [of cs1] by blast
    have "count_terms cmp True token (t # terms) cs = (None, cs')"
      using True cs1(1) cs'(1) by simp
    moreover have "fst ` set cs' = fst ` set cs \<union> {u \<in> set (t # terms). cmp token u}"
      using True cs1(2) cs'(2) by auto
    moreover have "(\<forall>p \<in> set cs. 1 \<le> snd p) \<longrightarrow> (\<forall>p \<in> set cs'. 1 \<le> snd p)"
      using cs1(3) cs'(3) by blast
    ultimately show ?thesis by blast
  qed
qed

lemma count_tokens_default:
  "\<exists>cs'. count_tokens cmp True terms tokens cs = (None, cs')
         \<and> fst ` set cs' = fst ` set cs \<union> {t \<in> set terms. \<exists>token \<in> set tokens. cmp token t}
         \<and> ((\<forall>p \<in> set cs. 1 \<le> snd p) \<longrightarrow> (\<forall>p \<in> set cs'. 1 \<le> snd p))"
proof (induction tokens arbitrary: cs)
  case Nil
  show ?case by simp
next
  case (Cons token tokens)
  obtain cs1 where cs1: "count_terms cmp True token terms cs = (None, cs1)"
    "fst ` set cs1 = fst ` set cs \<union> {t \<in> set terms. cmp token t}"
    "(\<forall>p \<in> set cs. 1 \<le> snd p) \<longrightarrow> (\<forall>p \<in> set cs1. 1 \<le> snd p)"
    using count_terms_default [of cmp token terms cs] by blast
  obtain cs' where cs': "count_tokens cmp True terms tokens cs1 = (None, cs')"
    "fst ` set cs' = fst ` set cs1 \<union> {t \<in> set terms. \<exists>token \<in> set tokens. cmp token t}"
    "(\<forall>p \<in> set cs1. 1 \<le> snd p) \<longrightarrow> (\<forall>p \<in> set cs'. 1 \<le> snd p)"
    using Cons.IH [of cs1] by blast
  have "count_tokens cmp True terms (token # tokens) cs = (None, cs')"
    using cs1(1) cs'(1) by simp
  moreover have "fst ` set cs' = fst ` set cs
      \<union> {t \<in> set terms. \<exists>tok \<in> set (token # tokens). cmp tok t}"
    using cs1(2) cs'(2) by auto
  moreover have "(\<forall>p \<in> set cs. 1 \<le> snd p) \<longrightarrow> (\<forall>p \<in> set cs'. 1 \<le> snd p)"
    using cs1(3) cs'(3) by blast
  ultimately show ?case by blast
qed

text \<open>One call of \<open>add_tweet\<close> on an object whose counters are a \<open>defaultdict\<close>.\<close>

lemma add_tweet_terms_step:
  fixes self :: "'a SpecifiedTermCounters_scheme"
  assumes "counters_default self"
    and self': "self' = snd (add_tweet (SpecifiedTermCounters_update get_tokens cmp) self tweet)"
  shows "filters self' = filters self \<and> term_list self' = term_list self
      \<and> counters_default self'
      \<and> fst ` set (counters self') = fst ` set (counters self)
           \<union> {t \<in> set (term_list self).
                \<exists>token \<in> set (tokens_ingested get_tokens self tweet). cmp token t}
      \<and> ((\<forall>p \<in> set (counters self). 1 \<le> snd p) \<longrightarrow> (\<forall>p \<in> set (counters self'). 1 \<le> snd p))"
proof (cases "case filters self of None \<Rightarrow> None | Some fs \<Rightarrow> run_filters fs tweet")
  case (Some out)
  then have "self' = self" and "tokens_ingested get_tokens self tweet = []"
    by (simp_all add: self' add_tweet_def tokens_ingested_def)
  then show ?thesis using assms(1) by simp
next
  case None
  show ?thesis
  proof (cases "get_tokens tweet")
    case (Inl e)
    then have "self' = self" and "tokens_ingested get_tokens self tweet = []"
      using None
      by (simp_all add: self' add_tweet_def tokens_ingested_def
          SpecifiedTermCounters_update_def)
    then show ?thesis using assms(1) by simp
  next
    case (Inr tokens)
    obtain cs' where cs': "count_tokens cmp True (term_list self) tokens (counters self) = (None, cs')"
      "fst ` set cs' = fst ` set (counters self)
         \<union> {t \<in> set (term_list self). \<exists>token \<in> set tokens. cmp token t}"
      "(\<forall>p \<in> set (counters self). 1 \<le> snd p) \<longrightarrow> (\<forall>p \<in> set cs'. 1 \<le> snd p)"
      using count_tokens_default [of cmp "term_list self" tokens "counters self"] by blast
    have s: "self' = self\<lparr>counters := cs'\<rparr>"
      using None Inr cs'(1) assms(1)
      by (simp add: self' add_tweet_def SpecifiedTermCounters_update_def)
    have t: "tokens_ingested get_tokens self tweet = tokens"
      using None Inr by (simp add: tokens_ingested_def)
    show ?thesis
      using cs'(2,3) assms(1) by (simp add: s t)
  qed
qed

lemma tokens_ingested_cong:
  "filters a = filters b \<Longrightarrow> tokens_ingested get_tokens a tweet = tokens_ingested get_tokens b tweet"
  by (simp add: tokens_ingested_def)

lemma matched_Nil: "matched get_tokens cmp self [] = {}"
  by (simp add: matched_def)

lemma matched_Cons:
  "matched get_tokens cmp self (tweet # tweets)
     = {t \<in> set (term_list self).
          \<exists>token \<in> set (tokens_ingested get_tokens self tweet). cmp token t}
       \<union> matched get_tokens cmp self tweets"
  unfolding matched_def by auto

lemma matched_cong:
  "filters a = filters b \<Longrightarrow> term_list a = term_list b \<Longrightarrow>
   matched get_tokens cmp a tweets = matched get_tokens cmp b tweets"
  by (simp add: matched_def tokens_ingested_def)

lemma add_tweets_terms:
  fixes self :: "'a SpecifiedTermCounters_scheme"
  assumes "counters_default self"
  shows "fst ` set (counters (add_tweets (SpecifiedTermCounters_update get_tokens cmp) self tweets))
           = fst ` set (counters self) \<union> matched get_tokens cmp self tweets
      \<and> ((\<forall>p \<in> set (counters self). 1 \<le> snd p) \<longrightarrow>
           (\<forall>p \<in> set (counters (add_tweets (SpecifiedTermCounters_update get_tokens cmp) self tweets)).
               1 \<le> snd p))"
  using assms
proof (induction tweets arbitrary: self)
  case Nil
  show ?case by (simp add: add_tweets_def matched_Nil)
next
  case (Cons tweet tweets)
  let ?u = "SpecifiedTermCounters_update get_tokens cmp"
  define self1 where "self1 = snd (add_tweet ?u self tweet)"
  have step: "filters self1 = filters self \<and> term_list self1 = term_list self
      \<and> counters_default self1
      \<and> fst ` set (counters self1) = fst ` set (counters self)
           \<union> {t \<in> set (term_list self).
                \<exists>token \<in> set (tokens_ingested get_tokens self tweet). cmp token t}
      \<and> ((\<forall>p \<in> set (counters self). 1 \<le> snd p) \<longrightarrow> (\<forall>p \<in> set (counters self1). 1 \<le> snd p))"
    using Cons.prems self1_def by (rule add_tweet_terms_step)
  have unfold: "add_tweets ?u self (tweet # tweets) = add_tweets ?u self1 tweets"
    by (simp add: add_tweets_def self1_def)
  have f1: "filters self1 = filters self"
    using step by (elim conjE)
  have f2: "term_list self1 = term_list self"
    using step by (elim conjE)
  have d: "counters_default self1"
    using step by (elim conjE)
  have m: "matched get_tokens cmp self1 tweets = matched get_tokens cmp self tweets"
    using f1 f2 by (rule matched_cong)
  have k1: "fst ` set (counters self1) = fst ` set (counters self)
           \<union> {t \<in> set (term_list self).
                \<exists>token \<in> set (tokens_ingested get_tokens self tweet). cmp token t}"
    using step by (elim conjE)
  have p1: "(\<forall>p \<in> set (counters self). 1 \<le> snd p) \<longrightarrow> (\<forall>p \<in> set (counters self1). 1 \<le> snd p)"
    using step by (elim conjE)
  note ih = Cons.IH [OF d]
  have keys: "fst ` set (counters (add_tweets ?u self1 tweets))
           = fst ` set (counters self) \<union> matched get_tokens cmp self (tweet # tweets)"
    unfolding conjunct1 [OF ih] m k1 matched_Cons by (rule Un_assoc)
  have pos: "(\<forall>p \<in> set (counters self). 1 \<le> snd p) \<longrightarrow>
           (\<forall>p \<in> set (counters (add_tweets ?u self1 tweets)). 1 \<le> snd p)"
  proof
    assume "\<forall>p \<in> set (counters self). 1 \<le> snd p"
    with p1 have "\<forall>p \<in> set (counters self1). 1 \<le> snd p" by (rule mp)
    with conjunct2 [OF ih] show "\<forall>p \<in> set (counters (add_tweets ?u self1 tweets)). 1 \<le> snd p"
      by (rule mp)
  qed
  show ?case
    unfolding unfold using keys pos by (rule conjI)
qed

text \<open>
  C10. A specified-term measurement starts with empty counters. After any sequence of
  \<open>add_tweet\<close> calls the names in its counters are exactly the terms of \<open>term_list\<close> that
  the comparator matched with a token counted in one of the calls: a term that matched no
  token has no entry, and an entry exists only from a match on. Every count is at least
  1, so no entry holds zero. \<open>get\<close> returns one pair for each entry of the counters, and
  its labels are the sanitized names of the matched terms.
\<close>

theorem unmatched_term_absent:
  fixes self :: "'a SpecifiedTermCounters_scheme"
  assumes "counters self = []" and "counters_default self"
  shows "fst ` set (counters (add_tweets (SpecifiedTermCounters_update get_tokens cmp) self tweets))
           = matched get_tokens cmp self tweets
       \<and> snd ` set (Counters_get sanitize
             (add_tweets (SpecifiedTermCounters_update get_tokens cmp) self tweets))
           = sanitize ` matched get_tokens cmp self tweets
       \<and> (\<forall>p \<in> set (counters (add_tweets (SpecifiedTermCounters_update get_tokens cmp) self tweets)).
             1 \<le> snd p)
       \<and> length (Counters_get sanitize
             (add_tweets (SpecifiedTermCounters_update get_tokens cmp) self tweets))
           = length (counters (add_tweets (SpecifiedTermCounters_update get_tokens cmp) self tweets))"
proof -
  let ?final = "add_tweets (SpecifiedTermCounters_update get_tokens cmp) self tweets"
  note run = add_tweets_terms [OF assms(2), of get_tokens cmp tweets]
  have keys: "fst ` set (counters ?final) = matched get_tokens cmp self tweets"
    using conjunct1 [OF run] by (simp add: assms(1))
  have pos: "\<forall>p \<in> set (counters ?final). 1 \<le> snd p"
    using conjunct2 [OF run] by (simp add: assms(1))
  have "snd ` set (Counters_get sanitize ?final) = sanitize ` fst ` set (counters ?final)"
    by (force simp: Counters_get_def image_iff)
  then have labels: "snd ` set (Counters_get sanitize ?final)
      = sanitize ` matched get_tokens cmp self tweets"
    by (simp only: keys)
  have len: "length (Counters_get sanitize ?final) = length (counters ?final)"
    by (simp add: Counters_get_def)
  show ?thesis
    using keys labels pos len by (intro conjI)
qed

lemma pets_run: "counters (add_tweets pets_update (pets None) [share_en]) = [(''cat'', 2)]"
  by (simp add: add_tweets_def add_tweet_def pets_update_def pets_def share_en_def
      SpecifiedBodyTermCounters_update_def SpecifiedTermCounters_update_def
      TokenizedBody_get_tokens_def get_tokens_of_def any_token_def same_term_def increment_def)

theorem unmatched_term_absent_witness:
  "counters (pets None) = [] \<and> counters_default (pets None)
   \<and> ''dog'' \<in> set (term_list (pets None))
   \<and> ''dog'' \<notin> matched (TokenizedBody_get_tokens any_token) same_term (pets None) [share_en]
   \<and> ''dog'' \<notin> fst ` set (counters (add_tweets pets_update (pets None) [share_en]))
   \<and> ''dog'' \<notin> snd ` set (Counters_get id (add_tweets pets_update (pets None) [share_en]))
   \<and> Counters_get id (add_tweets pets_update (pets None) [share_en]) = [(2, ''cat'')]"
proof -
  have h1: "counters (pets None) = []" and h2: "counters_default (pets None)"
    and t: "''dog'' \<in> set (term_list (pets None))"
    by (simp_all add: pets_def)
  have toks: "tokens_ingested (TokenizedBody_get_tokens any_token) (pets None) share_en
      = [JStr ''cat'', JStr ''bird'', JStr ''cat'']"
    by (simp add: tokens_ingested_def pets_def TokenizedBody_get_tokens_def get_tokens_of_def
        share_en_def any_token_def)
  have m: "''dog'' \<notin> matched (TokenizedBody_get_tokens any_token) same_term (pets None) [share_en]"
    by (simp add: matched_def toks same_term_def)
  have u: "pets_update = SpecifiedTermCounters_update (TokenizedBody_get_tokens any_token) same_term"
    by (simp add: pets_update_def SpecifiedBodyTermCounters_update_def)
  from unmatched_term_absent [OF h1 h2, of "TokenizedBody_get_tokens any_token" same_term
      "[share_en]" id]
  have "fst ` set (counters (add_tweets pets_update (pets None) [share_en]))
           = matched (TokenizedBody_get_tokens any_token) same_term (pets None) [share_en]"
    and "snd ` set (Counters_get id (add_tweets pets_update (pets None) [share_en]))
           = id ` matched (TokenizedBody_get_tokens any_token) same_term (pets None) [share_en]"
    unfolding u by blast+
  then have "''dog'' \<notin> fst ` set (counters (add_tweets pets_update (pets None) [share_en]))"
    and "''dog'' \<notin> snd ` set (Counters_get id (add_tweets pets_update (pets None) [share_en]))"
    using m by simp_all
  moreover have "Counters_get id (add_tweets pets_update (pets None) [share_en]) = [(2, ''cat'')]"
    by (simp add: Counters_get_def pets_run)
  ultimately show ?thesis
    using h1 h2 t m by simp
qed

section \<open>Outcomes of the image label enrichment\<close>

lemma share_fr_url: "get_img_url share_fr = Inr (JStr ''http://pbs.example/1.jpg'')"
  by (simp add: get_img_url_def no_media_def media_url_of_def share_fr_def media_entities_def)

lemma share_en_no_media: "no_media share_en = Inr True \<and> log_tweet_id share_en = None"
  by (simp add: no_media_def log_tweet_id_def share_en_def)

text \<open>
  C9, as stated, fails: when \<open>requests.get\<close> raises because no response arrives, nothing
  catches the exception and \<open>enrichment_value\<close> raises it, for a record that has a media
  reference.
\<close>

theorem network_error_counterexample:
  "enrichment_value offline_env ImageLabel_init share_fr
     = Inl (RequestException ''ConnectionError'')"
  by (simp add: enrichment_value_def get_image_from_tweet_def share_fr_url download_image_def
      offline_env_def online_env_def)

lemma format_output_length: "length (format_output env ps) = length ps"
  by (simp add: format_output_def)

lemma get_img_url_no_media:
  "no_media tweet = Inr True \<Longrightarrow> log_tweet_id tweet = None \<Longrightarrow> get_img_url tweet = Inr JNull"
  by (simp add: get_img_url_def)

lemma get_img_url_KeyError:
  "no_media tweet = Inr False \<Longrightarrow> media_url_of tweet = Inl (KeyError key) \<Longrightarrow>
   log_tweet_id tweet = None \<Longrightarrow> get_img_url tweet = Inr JNull"
  by (simp add: get_img_url_def)

lemma no_url_None:
  "get_img_url tweet = Inr JNull \<Longrightarrow> log_tweet_id tweet = None \<Longrightarrow>
   enrichment_value env self tweet = Inr None"
  by (simp add: enrichment_value_def get_image_from_tweet_def)

lemma enrichment_value_Some:
  "enrichment_value env self tweet = Inr (Some out) \<Longrightarrow>
   \<exists>img ps. make_predictions env img (topk self) = Inr ps \<and> out = format_output env ps"
  by (auto simp: enrichment_value_def split: sum.splits option.splits)

text \<open>
  C9, amended. Given a model that returns at most \<open>topk\<close> predictions, a list returned by
  \<open>enrichment_value\<close> has at most \<open>topk\<close> triples. A record with an identifier and
  without \<open>twitter_entities\<close> or without \<open>media\<close> in it, or whose media lookup ends in a
  \<open>KeyError\<close>, gives \<open>None\<close>; a response that is not ok gives \<open>None\<close>; an exception
  raised by \<open>requests.get\<close> is raised by \<open>enrichment_value\<close>.
\<close>

theorem enrichment_value_outcomes:
  assumes "\<forall>img ps. make_predictions env img (topk self) = Inr ps \<longrightarrow> int (length ps) \<le> topk self"
  shows "(enrichment_value env self tweet = Inr (Some out) \<longrightarrow> int (length out) \<le> topk self)
       \<and> (no_media tweet = Inr True \<and> log_tweet_id tweet = None
            \<longrightarrow> enrichment_value env self tweet = Inr None)
       \<and> (no_media tweet = Inr False \<and> media_url_of tweet = Inl (KeyError key)
              \<and> log_tweet_id tweet = None
            \<longrightarrow> enrichment_value env self tweet = Inr None)
       \<and> (get_img_url tweet = Inr img_url \<and> truthy img_url
              \<and> requests_get env img_url = Inr response \<and> \<not> ok response
            \<longrightarrow> enrichment_value env self tweet = Inr None)
       \<and> (get_img_url tweet = Inr img_url \<and> truthy img_url \<and> requests_get env img_url = Inl e
            \<longrightarrow> enrichment_value env self tweet = Inl e)"
proof (intro conjI impI)
  assume "enrichment_value env self tweet = Inr (Some out)"
  then obtain img ps where "make_predictions env img (topk self) = Inr ps"
    "out = format_output env ps"
    using enrichment_value_Some by blast
  then show "int (length out) \<le> topk self"
    using assms by (simp add: format_output_length)
next
  assume "no_media tweet = Inr True \<and> log_tweet_id tweet = None"
  then show "enrichment_value env self tweet = Inr None"
    by (simp add: get_img_url_no_media no_url_None)
next
  assume "no_media tweet = Inr False \<and> media_url_of tweet = Inl (KeyError key)
              \<and> log_tweet_id tweet = None"
  then show "enrichment_value env self tweet = Inr None"
    using get_img_url_KeyError [of tweet key] by (simp add: no_url_None)
next
  assume "get_img_url tweet = Inr img_url \<and> truthy img_url
              \<and> requests_get env img_url = Inr response \<and> \<not> ok response"
  then show "enrichment_value env self tweet = Inr None"
    by (simp add: enrichment_value_def get_image_from_tweet_def download_image_def)
next
  assume "get_img_url tweet = Inr img_url \<and> truthy img_url \<and> requests_get env img_url = Inl e"
  then show "enrichment_value env self tweet = Inl e"
    by (simp add: enrichment_value_def get_image_from_tweet_def download_image_def)
qed

theorem enrichment_value_outcomes_witness:
  "enrichment_value online_env ImageLabel_init share_fr
     = Inr (Some [(''tabby'', ''0.52'', ''n02123045''), (''tiger_cat'', ''0.21'', ''n02123159''),
                  (''Egyptian_cat'', ''0.11'', ''n02124075''), (''lynx'', ''0.05'', ''n02127052''),
                  (''Persian_cat'', ''0.03'', ''n02123394'')])
   \<and> topk ImageLabel_init = 5
   \<and> enrichment_value online_env ImageLabel_init share_en = Inr None
   \<and> enrichment_value not_found_env ImageLabel_init share_fr = Inr None
   \<and> enrichment_value offline_env ImageLabel_init share_fr
       = Inl (RequestException ''ConnectionError'')"
proof -
  have contract: "\<forall>img ps. make_predictions env img (topk ImageLabel_init) = Inr ps
      \<longrightarrow> int (length ps) \<le> topk ImageLabel_init"
    if "make_predictions env = (\<lambda>img k. Inr (take (nat k) six_predictions))" for env :: "(string, string, string) image_env"
    using that by (auto simp: ImageLabel_init_def)
  have c1: "\<forall>img ps. make_predictions online_env img (topk ImageLabel_init) = Inr ps
      \<longrightarrow> int (length ps) \<le> topk ImageLabel_init"
    by (rule contract) (simp add: online_env_def)
  have c2: "\<forall>img ps. make_predictions not_found_env img (topk ImageLabel_init) = Inr ps
      \<longrightarrow> int (length ps) \<le> topk ImageLabel_init"
    by (rule contract) (simp add: not_found_env_def online_env_def)
  have c3: "\<forall>img ps. make_predictions offline_env img (topk ImageLabel_init) = Inr ps
      \<longrightarrow> int (length ps) \<le> topk ImageLabel_init"
    by (rule contract) (simp add: offline_env_def online_env_def)
  have full: "enrichment_value online_env ImageLabel_init share_fr
     = Inr (Some [(''tabby'', ''0.52'', ''n02123045''), (''tiger_cat'', ''0.21'', ''n02123159''),
                  (''Egyptian_cat'', ''0.11'', ''n02124075''), (''lynx'', ''0.05'', ''n02127052''),
                  (''Persian_cat'', ''0.03'', ''n02123394'')])"
    by (simp add: enrichment_value_def get_image_from_tweet_def share_fr_url download_image_def
        online_env_def ImageLabel_init_def six_predictions_def format_output_def)
  have none: "enrichment_value online_env ImageLabel_init share_en = Inr None"
    using enrichment_value_outcomes [OF c1, of share_en] share_en_no_media by blast
  have r404: "requests_get not_found_env (JStr ''http://pbs.example/1.jpg'')
      = Inr \<lparr>ok = False, status_code = 404, content = []\<rparr>"
    by (simp add: not_found_env_def)
  have http: "enrichment_value not_found_env ImageLabel_init share_fr = Inr None"
    using enrichment_value_outcomes [OF c2, of share_fr _ _ "JStr ''http://pbs.example/1.jpg''"
        "\<lparr>ok = False, status_code = 404, content = []\<rparr>"] share_fr_url r404
    by simp
  have roff: "requests_get offline_env (JStr ''http://pbs.example/1.jpg'')
      = Inl (RequestException ''ConnectionError'')"
    by (simp add: offline_env_def)
  have net: "enrichment_value offline_env ImageLabel_init share_fr
       = Inl (RequestException ''ConnectionError'')"
    using enrichment_value_outcomes [OF c3, of share_fr _ _ "JStr ''http://pbs.example/1.jpg''"
        _ "RequestException ''ConnectionError''"] share_fr_url roff
    by simp
  show ?thesis
    using full none http net by (simp add: ImageLabel_init_def)
qed

end
